theory Spec2Isabelle
  imports Complex_Main "HOL-Library.Word"
begin

section \<open>Dense fixed-size vectors and matrices\<close>

text \<open>
  The estimator is a template over a scalar type and over two spaces whose dimensions
  \<open>StateSpace::N\<close> and \<open>ObservationSpace::N\<close> are compile-time constants.  A vector is the
  list of its coefficients, a matrix the list of its rows.  The dimensions, which the
  C++ types carry, are explicit arguments of every operation; the predicate \<open>mat\<close> says
  that a list has the shape its C++ type guarantees.  Scalars are the elements of an
  ordered field (exact arithmetic): rounding of a floating-point instance is not
  modelled.
\<close>

type_synonym 'a vec = "'a list"
type_synonym 'a mat = "'a list list"

definition mat :: "nat \<Rightarrow> nat \<Rightarrow> 'a mat \<Rightarrow> bool" where
  "mat r c A = (length A = r \<and> list_all (\<lambda>row. length row = c) A)"

definition mk_vec :: "nat \<Rightarrow> (nat \<Rightarrow> 'a) \<Rightarrow> 'a vec" where
  "mk_vec n f = map f [0..<n]"

definition mk_mat :: "nat \<Rightarrow> nat \<Rightarrow> (nat \<Rightarrow> nat \<Rightarrow> 'a) \<Rightarrow> 'a mat" where
  "mk_mat r c f = map (\<lambda>i. map (\<lambda>j. f i j) [0..<c]) [0..<r]"

definition vec_add :: "nat \<Rightarrow> 'a::linordered_field vec \<Rightarrow> 'a vec \<Rightarrow> 'a vec" where
  "vec_add n u v = mk_vec n (\<lambda>i. u ! i + v ! i)"

definition vec_sub :: "nat \<Rightarrow> 'a::linordered_field vec \<Rightarrow> 'a vec \<Rightarrow> 'a vec" where
  "vec_sub n u v = mk_vec n (\<lambda>i. u ! i - v ! i)"

definition mat_add :: "nat \<Rightarrow> nat \<Rightarrow> 'a::linordered_field mat \<Rightarrow> 'a mat \<Rightarrow> 'a mat" where
  "mat_add r c A B = mk_mat r c (\<lambda>i j. A ! i ! j + B ! i ! j)"

definition mat_sub :: "nat \<Rightarrow> nat \<Rightarrow> 'a::linordered_field mat \<Rightarrow> 'a mat \<Rightarrow> 'a mat" where
  "mat_sub r c A B = mk_mat r c (\<lambda>i j. A ! i ! j - B ! i ! j)"

definition mat_smult :: "nat \<Rightarrow> nat \<Rightarrow> 'a::linordered_field \<Rightarrow> 'a mat \<Rightarrow> 'a mat" where
  "mat_smult r c s A = mk_mat r c (\<lambda>i j. s * A ! i ! j)"

text \<open>\<open>mat_mult r k c A B\<close> is the product of the \<open>r \<times> k\<close> matrix \<open>A\<close> and the \<open>k \<times> c\<close> matrix \<open>B\<close>.\<close>

definition mat_mult :: "nat \<Rightarrow> nat \<Rightarrow> nat \<Rightarrow> 'a::linordered_field mat \<Rightarrow> 'a mat \<Rightarrow> 'a mat" where
  "mat_mult r k c A B = mk_mat r c (\<lambda>i j. \<Sum>l\<leftarrow>[0..<k]. A ! i ! l * B ! l ! j)"

definition mat_vec :: "nat \<Rightarrow> nat \<Rightarrow> 'a::linordered_field mat \<Rightarrow> 'a vec \<Rightarrow> 'a vec" where
  "mat_vec r c A v = mk_vec r (\<lambda>i. \<Sum>l\<leftarrow>[0..<c]. A ! i ! l * v ! l)"

text \<open>\<open>mat_transpose r c A\<close> is the \<open>c \<times> r\<close> transpose of the \<open>r \<times> c\<close> matrix \<open>A\<close>.\<close>

definition mat_transpose :: "nat \<Rightarrow> nat \<Rightarrow> 'a mat \<Rightarrow> 'a mat" where
  "mat_transpose r c A = mk_mat c r (\<lambda>i j. A ! j ! i)"

definition mat_identity :: "nat \<Rightarrow> 'a::linordered_field mat" where
  "mat_identity n = mk_mat n n (\<lambda>i j. if i = j then 1 else 0)"

text \<open>Eigen's \<open>asDiagonal()\<close>: the square matrix with the vector on its diagonal.\<close>

definition asDiagonal :: "nat \<Rightarrow> 'a::linordered_field vec \<Rightarrow> 'a mat" where
  "asDiagonal k w = mk_mat k k (\<lambda>i j. if i = j then w ! i else 0)"

definition symmetric :: "nat \<Rightarrow> 'a mat \<Rightarrow> bool" where
  "symmetric n A = (mat_transpose n n A = A)"

text \<open>\<open>inverse_of n A B\<close>: the \<open>n \<times> n\<close> matrix \<open>B\<close> is a two-sided inverse of \<open>A\<close>.\<close>

definition inverse_of :: "nat \<Rightarrow> 'a::linordered_field mat \<Rightarrow> 'a mat \<Rightarrow> bool" where
  "inverse_of n A B =
     (mat n n A \<and> mat n n B \<and>
      mat_mult n n n A B = mat_identity n \<and> mat_mult n n n B A = mat_identity n)"

section \<open>The LU solver\<close>

text \<open>
  \<open>Eigen::PartialPivLU\<close> is library code.  Its \<open>inverse()\<close> is modelled by elimination with
  partial pivoting on the pair of the matrix and the identity: in column \<open>k\<close> the row of
  largest magnitude among the rows \<open>k, \<dots>, n - 1\<close> is swapped into place, divided by its
  pivot and subtracted from every other row.  On a matrix that has an inverse the
  result is that inverse (lemma \<open>PartialPivLU_inverse_correct\<close>), which is what the
  library computes in exact arithmetic.  Like the library, the model does not test the
  pivot: on a singular matrix Eigen divides by zero and returns infinities or NaN, the
  model returns a matrix without meaning (division by zero is \<open>0\<close> in HOL).
\<close>

definition pivot_row :: "nat \<Rightarrow> nat \<Rightarrow> 'a::linordered_field mat \<Rightarrow> nat" where
  "pivot_row n k A = fold (\<lambda>i p. if \<bar>A ! p ! k\<bar> < \<bar>A ! i ! k\<bar> then i else p) [k..<n] k"

definition swap_rows :: "nat \<Rightarrow> nat \<Rightarrow> 'a mat \<Rightarrow> 'a mat" where
  "swap_rows k p M = M[k := M ! p, p := M ! k]"

definition scale_row :: "nat \<Rightarrow> 'a::linordered_field \<Rightarrow> 'a mat \<Rightarrow> 'a mat" where
  "scale_row k s M = M[k := map (\<lambda>x. s * x) (M ! k)]"

text \<open>\<open>eliminate k f M\<close> subtracts \<open>f ! i\<close> times row \<open>k\<close> from every row \<open>i \<noteq> k\<close>.\<close>

definition eliminate :: "nat \<Rightarrow> 'a::linordered_field vec \<Rightarrow> 'a mat \<Rightarrow> 'a mat" where
  "eliminate k f M =
     map (\<lambda>i. if i = k then M ! k else map (\<lambda>(x, y). x - f ! i * y) (zip (M ! i) (M ! k)))
       [0..<length M]"

definition column :: "nat \<Rightarrow> 'a mat \<Rightarrow> 'a vec" where
  "column k M = map (\<lambda>row. row ! k) M"

definition lu_step :: "nat \<Rightarrow> nat \<Rightarrow> 'a::linordered_field mat \<times> 'a mat \<Rightarrow> 'a mat \<times> 'a mat" where
  "lu_step n k AB =
     (let (A, B) = AB;
          p = pivot_row n k A;
          A1 = swap_rows k p A;
          B1 = swap_rows k p B;
          s = 1 / A1 ! k ! k;
          A2 = scale_row k s A1;
          B2 = scale_row k s B1;
          f = column k A2
      in (eliminate k f A2, eliminate k f B2))"

definition PartialPivLU_inverse :: "nat \<Rightarrow> 'a::linordered_field mat \<Rightarrow> 'a mat" where
  "PartialPivLU_inverse n A = snd (fold (lu_step n) [0..<n] (A, mat_identity n))"

section \<open>Data model\<close>

text \<open>
  \<open>MeanAndCovariance\<close> is declared in \<open>vague/estimate.hpp\<close>; the estimator reads and writes
  its members \<open>mean\<close> and \<open>covariance\<close>.  \<open>PredictedObservation\<close> derives from it and adds the
  cross covariance, a matrix with \<open>StateSpace::N\<close> rows and \<open>ObservationSpace::N\<close> columns.
\<close>

record 'a MeanAndCovariance =
  mean :: "'a vec"
  covariance :: "'a mat"

record 'a PredictedObservation = "'a MeanAndCovariance" +
  cross_covariance :: "'a mat"

record 'a TimeDependentAdditiveProcessNoise =
  process_noise_per_second :: "'a mat"

text \<open>
  \<open>TimePoint\<close> is a template parameter, a \<open>std::chrono\<close> time point.  The operations
  below take it as its count of clock ticks in the tick representation of its duration
  type: an integer type of some width \<open>'w\<close>, signed or unsigned.
\<close>

record ('a, 't) StateEstimator =
  time :: 't
  estimate :: "'a MeanAndCovariance"

text \<open>
  The only exception the estimator throws is a \<open>std::runtime_error\<close> with a message.  A
  member declared \<open>noexcept\<close> either returns or, when an exception reaches it, ends the
  program through \<open>std::terminate\<close>.
\<close>

datatype error = runtime_error string

abbreviation InvalidTimeOrder :: error where
  "InvalidTimeOrder \<equiv> runtime_error ''Unable to wind back time''"

datatype 'r noexcept = terminate | returned 'r

section \<open>Process noise\<close>

text \<open>
  \<open>operator()\<close> takes the mean by const reference and the covariance by reference, adds
  \<open>dt * process_noise_per_second\<close> to the covariance in place and returns a reference to
  it.  The model returns the values of the two referenced objects after the call; the
  second is also the value of the returned reference.
\<close>

definition TimeDependentAdditiveProcessNoise_call ::
  "nat \<Rightarrow> 'a::linordered_field TimeDependentAdditiveProcessNoise \<Rightarrow> 'a \<Rightarrow> 'a vec \<Rightarrow> 'a mat \<Rightarrow> 'a vec \<times> 'a mat"
where
  "TimeDependentAdditiveProcessNoise_call n pn dt m cov =
     (m, mat_add n n cov (mat_smult n n dt (process_noise_per_second pn)))"

section \<open>Sigma points\<close>

text \<open>
  The sampler and the weighted point set live in \<open>vague/unscented_transform.hpp\<close> and
  \<open>vague/estimate.hpp\<close>.  A point set holds one sample per column and one weight per
  sample.  The sampler itself, \<open>sample(estimate, CubatureSigmaPoints())\<close>, is an argument
  \<open>sample\<close> of the operations below.
\<close>

record 'a SigmaPoints =
  samples :: "'a mat"
  weights :: "'a vec"

text \<open>
  Modelled from the spec: \<open>mean_centered_samples()\<close> of \<open>vague/estimate.hpp\<close>, which
  ``returns mean plus a matrix of points minus mean''; the mean of a point set is the
  weighted sum of its points.
\<close>

definition mean_centered_samples :: "nat \<Rightarrow> 'a::linordered_field SigmaPoints \<Rightarrow> 'a vec \<times> 'a mat" where
  "mean_centered_samples n sp =
     (let k = length (weights sp);
          m = mat_vec n k (samples sp) (weights sp)
      in (m, mk_mat n k (\<lambda>i j. samples sp ! i ! j - m ! i)))"

text \<open>
  Modelled from the spec: \<open>statistics()\<close> of \<open>vague/estimate.hpp\<close>, which ``recombines a
  weighted point set into mean+covariance'' (the unscented transform): the weighted mean,
  and the weighted sum of the outer products of the mean-centred points.
\<close>

definition statistics :: "nat \<Rightarrow> 'a::linordered_field SigmaPoints \<Rightarrow> 'a MeanAndCovariance" where
  "statistics n sp =
     (let k = length (weights sp);
          (m, centered) = mean_centered_samples n sp
      in \<lparr>mean = m,
          covariance = mat_mult n k n (mat_mult n k k centered (asDiagonal k (weights sp)))
                         (mat_transpose n k centered)\<rparr>)"

section \<open>The state estimator\<close>

text \<open>
  A dynamics model is a callable object: called on a belief and a duration on the
  differentiable path, on a point set and a duration on the sampled path.  An observer
  is called with further arguments, the augmented state (of a type \<open>'g\<close>), and has a
  \<open>jacobian\<close> member as well.  The observer is called inside a \<open>noexcept\<close> member, where
  a call that throws ends the program: each of its calls returns a value or throws.
  The dynamics and the process noise are taken as functions that return; an exception
  of theirs would leave \<open>predict\<close> after the time has been assigned.
\<close>

record 'a Dynamics =
  dynamics_belief :: "'a MeanAndCovariance \<Rightarrow> 'a \<Rightarrow> 'a MeanAndCovariance"
  dynamics_samples :: "'a SigmaPoints \<Rightarrow> 'a \<Rightarrow> 'a SigmaPoints"

record ('a, 'g) Observer =
  observer_belief :: "'a MeanAndCovariance \<Rightarrow> 'g \<Rightarrow> error + 'a MeanAndCovariance"
  jacobian :: "'a MeanAndCovariance \<Rightarrow> 'g \<Rightarrow> error + 'a mat"
  observer_samples :: "'a SigmaPoints \<Rightarrow> 'g \<Rightarrow> error + 'a SigmaPoints"

text \<open>
  What the template's instantiation fixes: the dimension \<open>StateSpace::N\<close>, whether the tick
  representation is signed, the length of a clock tick in seconds (the ratio
  \<open>duration_cast\<close> applies), and the sampler.
\<close>

record 'a Instance =
  state_dim :: nat
  signed_rep :: bool
  seconds_per_tick :: 'a
  sample :: "'a MeanAndCovariance \<Rightarrow> 'a SigmaPoints"

text \<open>
  \<open>ticks\<close> is \<open>count()\<close>: the value of a tick count in its representation.  The
  difference of two time points is computed in the tick representation: it wraps around
  for an unsigned representation and for a signed one narrower than \<open>int\<close> (which is
  promoted and narrowed back); for the other signed representations overflow is
  undefined behaviour, and the model wraps around there as well.  The difference of
  \<open>t\<close> and \<open>t0\<close> is representable when it does not wrap around.
\<close>

definition ticks :: "'a Instance \<Rightarrow> 'w::len word \<Rightarrow> int" where
  "ticks inst d = (if signed_rep inst then sint d else uint d)"

definition difference_representable :: "'a Instance \<Rightarrow> 'w::len word \<Rightarrow> 'w word \<Rightarrow> bool" where
  "difference_representable inst t0 t = (ticks inst (t - t0) = ticks inst t - ticks inst t0)"

text \<open>
  \<open>predict\<close>.  The value of \<open>FunctionTypeCallableWith<...>::value\<close>, a compile-time constant
  of \<open>vague/utility.hpp\<close>, is the argument \<open>callable\<close>.  The method mutates the estimator
  and may throw: the model returns the outcome and the estimator as the call leaves it.
\<close>

definition predict ::
  "'a::linordered_field Instance \<Rightarrow> bool \<Rightarrow> 'w::len word \<Rightarrow> 'a Dynamics
     \<Rightarrow> ('a \<Rightarrow> 'a vec \<Rightarrow> 'a mat \<Rightarrow> 'a mat)
     \<Rightarrow> ('a, 'w word) StateEstimator \<Rightarrow> (error + unit) \<times> ('a, 'w word) StateEstimator"
where
  "predict inst callable t dynamics process_noise se =
     (let duration = t - time se in
      if ticks inst duration = 0 then (Inr (), se)
      else if ticks inst duration < 0 then (Inl (runtime_error ''Unable to wind back time''), se)
      else
        let se1 = se\<lparr>time := t\<rparr>;
            dt = of_int (ticks inst duration) * seconds_per_tick inst;
            se2 = (if callable
                   then se1\<lparr>estimate := dynamics_belief dynamics (estimate se1) dt\<rparr>
                   else se1\<lparr>estimate := statistics (state_dim inst)
                                           (dynamics_samples dynamics (sample inst (estimate se1)) dt)\<rparr>);
            cov = process_noise dt (mean (estimate se2)) (covariance (estimate se2))
        in (Inr (), se2\<lparr>estimate := (estimate se2)\<lparr>covariance := cov\<rparr>\<rparr>))"

text \<open>
  \<open>predict_observation\<close> is a const \<open>noexcept\<close> member: the model returns the predicted
  observation, or that the program was terminated, together with the estimator, which
  it passes through.  \<open>m\<close> is \<open>Observer::To::N\<close>.
\<close>

definition predict_observation ::
  "'a::linordered_field Instance \<Rightarrow> nat \<Rightarrow> bool \<Rightarrow> ('a, 'g) Observer \<Rightarrow> 'g
     \<Rightarrow> ('a, 'w word) StateEstimator \<Rightarrow> 'a PredictedObservation noexcept \<times> ('a, 'w word) StateEstimator"
where
  "predict_observation inst m callable observer augmented_state se =
     (let n = state_dim inst in
      if callable then
        (case observer_belief observer (estimate se) augmented_state of
           Inl e \<Rightarrow> (terminate, se)
         | Inr b \<Rightarrow>
            (case jacobian observer (estimate se) augmented_state of
               Inl e \<Rightarrow> (terminate, se)
             | Inr J \<Rightarrow>
                (returned
                   \<lparr>mean = mean b, covariance = covariance b,
                    cross_covariance =
                      mat_mult n n m (covariance (estimate se)) (mat_transpose m n J)\<rparr>, se)))
      else
        let sps = sample inst (estimate se);
            k = length (weights sps);
            (state_mean, state_centered_samples) = mean_centered_samples n sps
        in (case observer_samples observer sps augmented_state of
              Inl e \<Rightarrow> (terminate, se)
            | Inr predicted_obs_sigma_points \<Rightarrow>
               (let (predicted_obs_mean, predicted_obs_centered_samples) =
                      mean_centered_samples m predicted_obs_sigma_points;
                    b = statistics m predicted_obs_sigma_points
                in (returned
                      \<lparr>mean = mean b, covariance = covariance b,
                       cross_covariance =
                         mat_mult n k m
                           (mat_mult n k k state_centered_samples (asDiagonal k (weights sps)))
                           (mat_transpose m k predicted_obs_centered_samples)\<rparr>, se))))"

text \<open>\<open>assimilate\<close>; \<open>m\<close> is \<open>ObservationSpace::N\<close>.\<close>

definition assimilate ::
  "'a::linordered_field Instance \<Rightarrow> nat \<Rightarrow> 'a PredictedObservation \<Rightarrow> 'a MeanAndCovariance
     \<Rightarrow> ('a, 'w word) StateEstimator \<Rightarrow> ('a, 'w word) StateEstimator"
where
  "assimilate inst m po observation se =
     (let n = state_dim inst;
          observation_covariance_sum = mat_add m m (covariance po) (covariance observation);
          kalman_gain = mat_mult n m m (cross_covariance po)
                          (PartialPivLU_inverse m observation_covariance_sum);
          se1 = se\<lparr>estimate := (estimate se)\<lparr>mean :=
                   vec_add n (mean (estimate se))
                     (mat_vec n m kalman_gain (vec_sub m (mean observation) (mean po)))\<rparr>\<rparr>
      in se1\<lparr>estimate := (estimate se1)\<lparr>covariance :=
               mat_sub n n (covariance (estimate se1))
                 (mat_mult n m n (mat_mult n m m kalman_gain observation_covariance_sum)
                    (mat_transpose n m kalman_gain))\<rparr>\<rparr>)"

text \<open>
  The process-noise argument of \<open>predict\<close> is any callable; this is the strategy object
  above seen as one: the value of the reference it returns.
\<close>

definition process_noise_of ::
  "nat \<Rightarrow> 'a::linordered_field TimeDependentAdditiveProcessNoise \<Rightarrow> 'a \<Rightarrow> 'a vec \<Rightarrow> 'a mat \<Rightarrow> 'a mat"
where
  "process_noise_of n pn dt m cov = snd (TimeDependentAdditiveProcessNoise_call n pn dt m cov)"

section \<open>Sequences of operations\<close>

datatype ('a, 'g, 't) operation =
    Predict bool 't "'a Dynamics" "'a \<Rightarrow> 'a vec \<Rightarrow> 'a mat \<Rightarrow> 'a mat"
  | PredictObservation nat bool "('a, 'g) Observer" 'g
  | Assimilate nat "'a PredictedObservation" "'a MeanAndCovariance"

text \<open>
  The estimator a caller sees after an operation (a caller may catch the exception of
  \<open>predict\<close> and go on), unless the program was terminated.
\<close>

fun apply_operation ::
  "'a::linordered_field Instance \<Rightarrow> ('a, 'g, 'w::len word) operation \<Rightarrow> ('a, 'w word) StateEstimator
     \<Rightarrow> ('a, 'w word) StateEstimator noexcept"
where
  "apply_operation inst (Predict callable t dynamics process_noise) se =
     returned (snd (predict inst callable t dynamics process_noise se))"
| "apply_operation inst (PredictObservation m callable observer augmented_state) se =
     (case predict_observation inst m callable observer augmented_state se of
        (terminate, se') \<Rightarrow> terminate
      | (returned po, se') \<Rightarrow> returned se')"
| "apply_operation inst (Assimilate m po observation) se =
     returned (assimilate inst m po observation se)"

text \<open>The estimators a caller sees after each operation of a sequence.\<close>

fun run ::
  "'a::linordered_field Instance \<Rightarrow> ('a, 'g, 'w::len word) operation list \<Rightarrow> ('a, 'w word) StateEstimator
     \<Rightarrow> ('a, 'w word) StateEstimator list"
where
  "run inst [] se = []"
| "run inst (operation # operations) se =
     (case apply_operation inst operation se of
        terminate \<Rightarrow> []
      | returned se' \<Rightarrow> se' # run inst operations se')"

text \<open>
  \<open>differences_representable\<close>: along the sequence, the difference between the target
  time of every \<open>predict\<close> and the time of the estimator it is called on is representable.
\<close>

fun target_representable ::
  "'a Instance \<Rightarrow> ('a, 'g, 'w::len word) operation \<Rightarrow> ('a, 'w word) StateEstimator \<Rightarrow> bool"
where
  "target_representable inst (Predict callable t dynamics process_noise) se =
     difference_representable inst (time se) t"
| "target_representable inst (PredictObservation m callable observer augmented_state) se = True"
| "target_representable inst (Assimilate m po observation) se = True"

fun differences_representable ::
  "'a::linordered_field Instance \<Rightarrow> ('a, 'g, 'w::len word) operation list \<Rightarrow> ('a, 'w word) StateEstimator
     \<Rightarrow> bool"
where
  "differences_representable inst [] se = True"
| "differences_representable inst (operation # operations) se =
     (target_representable inst operation se \<and>
      (case apply_operation inst operation se of
         terminate \<Rightarrow> True
       | returned se' \<Rightarrow> differences_representable inst operations se'))"

section \<open>Linear models\<close>

text \<open>
  The linear dynamics model with transition matrix \<open>A\<close> of the testable properties: on a
  belief it maps mean \<open>m\<close> and covariance \<open>P\<close> to \<open>A m\<close> and \<open>A P A\<^sup>T\<close>, on a point set it maps
  every point \<open>x\<close> to \<open>A x\<close> and keeps the weights.  The linear observer with matrix \<open>H\<close>
  (\<open>m \<times> n\<close>) is the same map into the observation space; its Jacobian is \<open>H\<close>.
\<close>

definition linear_belief :: "nat \<Rightarrow> nat \<Rightarrow> 'a::linordered_field mat \<Rightarrow> 'a MeanAndCovariance \<Rightarrow> 'a MeanAndCovariance" where
  "linear_belief m n H b =
     \<lparr>mean = mat_vec m n H (mean b),
      covariance = mat_mult m n m (mat_mult m n n H (covariance b)) (mat_transpose m n H)\<rparr>"

definition linear_samples :: "nat \<Rightarrow> nat \<Rightarrow> 'a::linordered_field mat \<Rightarrow> 'a SigmaPoints \<Rightarrow> 'a SigmaPoints" where
  "linear_samples m n H sp = sp\<lparr>samples := mat_mult m n (length (weights sp)) H (samples sp)\<rparr>"

definition linear_dynamics :: "nat \<Rightarrow> 'a::linordered_field mat \<Rightarrow> 'a Dynamics" where
  "linear_dynamics n A =
     \<lparr>dynamics_belief = (\<lambda>b dt. linear_belief n n A b),
      dynamics_samples = (\<lambda>sp dt. linear_samples n n A sp)\<rparr>"

definition linear_observer :: "nat \<Rightarrow> nat \<Rightarrow> 'a::linordered_field mat \<Rightarrow> ('a, 'g) Observer" where
  "linear_observer m n H =
     \<lparr>observer_belief = (\<lambda>b g. Inr (linear_belief m n H b)),
      jacobian = (\<lambda>b g. Inr H),
      observer_samples = (\<lambda>sp g. Inr (linear_samples m n H sp))\<rparr>"

section \<open>Instances\<close>

text \<open>
  A one-dimensional state over the reals with a millisecond clock of signed ticks.  The
  sampler draws the cubature points of a one-dimensional belief of standard deviation
  2: the two points one standard deviation away from the mean, with equal weights.  The
  estimator is given with 64-bit ticks and, at an early time, with 16-bit ticks.
\<close>

definition example_sampler :: "real MeanAndCovariance \<Rightarrow> real SigmaPoints" where
  "example_sampler b = \<lparr>samples = [[mean b ! 0 + 2, mean b ! 0 - 2]], weights = [1 / 2, 1 / 2]\<rparr>"

definition example_instance :: "real Instance" where
  "example_instance =
     \<lparr>state_dim = 1, signed_rep = True, seconds_per_tick = 1 / 1000, sample = example_sampler\<rparr>"

definition example_estimator :: "(real, 64 word) StateEstimator" where
  "example_estimator = \<lparr>time = 500, estimate = \<lparr>mean = [1], covariance = [[4]]\<rparr>\<rparr>"

definition example_estimator_int16 :: "(real, 16 word) StateEstimator" where
  "example_estimator_int16 = \<lparr>time = - 20000, estimate = \<lparr>mean = [1], covariance = [[4]]\<rparr>\<rparr>"

definition example_predicted_observation :: "real PredictedObservation" where
  "example_predicted_observation =
     \<lparr>mean = [0, 0], covariance = [[2, 1], [1, 2]], cross_covariance = [[1, 1]]\<rparr>"

definition example_observation :: "real MeanAndCovariance" where
  "example_observation = \<lparr>mean = [1, 2], covariance = [[1, 0], [0, 1]]\<rparr>"

text \<open>The same state with a clock of unsigned 32-bit ticks.\<close>

definition unsigned_instance :: "real Instance" where
  "unsigned_instance =
     \<lparr>state_dim = 1, signed_rep = False, seconds_per_tick = 1 / 1000, sample = example_sampler\<rparr>"

definition example_estimator_uint32 :: "(real, 32 word) StateEstimator" where
  "example_estimator_uint32 = \<lparr>time = 500, estimate = \<lparr>mean = [1], covariance = [[4]]\<rparr>\<rparr>"


text \<open>
  A two-dimensional state, observed in two dimensions.  The sampler draws the cubature
  points of a belief whose covariance has the Cholesky factor with rows \<open>(\<surd>2, 0)\<close> and
  \<open>(\<surd>2, \<surd>2)\<close>: the mean plus and minus \<open>\<surd>2\<close> times each column of the factor, with
  equal weights.
\<close>

definition example_sampler_2d :: "real MeanAndCovariance \<Rightarrow> real SigmaPoints" where
  "example_sampler_2d b =
     \<lparr>samples = [[mean b ! 0 + 2, mean b ! 0, mean b ! 0 - 2, mean b ! 0],
                 [mean b ! 1 + 2, mean b ! 1 + 2, mean b ! 1 - 2, mean b ! 1 - 2]],
      weights = [1 / 4, 1 / 4, 1 / 4, 1 / 4]\<rparr>"

definition example_instance_2d :: "real Instance" where
  "example_instance_2d =
     \<lparr>state_dim = 2, signed_rep = True, seconds_per_tick = 1 / 1000, sample = example_sampler_2d\<rparr>"

definition example_estimator_2d :: "(real, 64 word) StateEstimator" where
  "example_estimator_2d =
     \<lparr>time = 500, estimate = \<lparr>mean = [1, 2], covariance = [[2, 2], [2, 4]]\<rparr>\<rparr>"

definition example_predicted_observation_2d :: "real PredictedObservation" where
  "example_predicted_observation_2d =
     \<lparr>mean = [1, 3], covariance = [[2, 4], [4, 10]], cross_covariance = [[2, 4], [2, 6]]\<rparr>"

section \<open>Matrix algebra\<close>


lemma length_mk_mat: "length (mk_mat r c f) = r"
  by (simp add: mk_mat_def)

lemma nth_mk_mat_row: "i < r \<Longrightarrow> mk_mat r c f ! i = map (f i) [0..<c]"
  by (simp add: mk_mat_def)

lemma nth_mk_mat: "i < r \<Longrightarrow> j < c \<Longrightarrow> mk_mat r c f ! i ! j = f i j"
  by (simp add: mk_mat_def)

lemma mat_mk_mat: "mat r c (mk_mat r c f)"
  by (simp add: mat_def mk_mat_def list_all_iff)

lemma mat_row_length: "mat r c A \<Longrightarrow> i < r \<Longrightarrow> length (A ! i) = c"
  by (simp add: mat_def list_all_length)

lemma mat_eqI:
  assumes "mat r c A" and "mat r c B"
    and "\<And>i j. i < r \<Longrightarrow> j < c \<Longrightarrow> A ! i ! j = B ! i ! j"
  shows "A = B"
proof (rule nth_equalityI)
  show "length A = length B" using assms(1,2) by (simp add: mat_def)
next
  fix i assume "i < length A"
  then have i: "i < r" using assms(1) by (simp add: mat_def)
  show "A ! i = B ! i"
  proof (rule nth_equalityI)
    show "length (A ! i) = length (B ! i)"
      using assms(1,2) i by (simp add: mat_row_length)
  next
    fix j assume "j < length (A ! i)"
    then have "j < c" using assms(1) i by (simp add: mat_row_length)
    then show "A ! i ! j = B ! i ! j" using assms(3) i by simp
  qed
qed

lemma mk_mat_cong:
  "(\<And>i j. i < r \<Longrightarrow> j < c \<Longrightarrow> f i j = g i j) \<Longrightarrow> mk_mat r c f = mk_mat r c g"
  by (simp add: mk_mat_def)

lemma mk_mat_nth_id: "mat r c A \<Longrightarrow> mk_mat r c (\<lambda>i j. A ! i ! j) = A"
  by (rule mat_eqI [of r c]) (simp_all add: mat_mk_mat nth_mk_mat)

lemma sum_list_upt: "(\<Sum>l\<leftarrow>[0..<k]. f l) = (\<Sum>l<k. f l)"
  by (simp add: interv_sum_list_conv_sum_set_nat atLeast0LessThan)

lemma mat_mult_nth:
  "i < r \<Longrightarrow> j < c \<Longrightarrow> mat_mult r k c A B ! i ! j = (\<Sum>l<k. A ! i ! l * B ! l ! j)"
  by (simp add: mat_mult_def nth_mk_mat sum_list_upt)

lemma mat_mat_mult: "mat r c (mat_mult r k c A B)"
  by (simp add: mat_mult_def mat_mk_mat)

lemma mat_mult_assoc:
  "mat_mult r k c (mat_mult r l k A B) C = mat_mult r l c A (mat_mult l k c B C)"
proof (rule mat_eqI [of r c])
  fix i j assume ij: "i < r" "j < c"
  have "(\<Sum>x<k. (\<Sum>y<l. A ! i ! y * B ! y ! x) * C ! x ! j)
      = (\<Sum>x<k. \<Sum>y<l. A ! i ! y * (B ! y ! x * C ! x ! j))"
    by (simp add: sum_distrib_right mult.assoc)
  also have "\<dots> = (\<Sum>y<l. \<Sum>x<k. A ! i ! y * (B ! y ! x * C ! x ! j))"
    by (rule sum.swap)
  also have "\<dots> = (\<Sum>y<l. A ! i ! y * (\<Sum>x<k. B ! y ! x * C ! x ! j))"
    by (simp add: sum_distrib_left)
  finally show "mat_mult r k c (mat_mult r l k A B) C ! i ! j
      = mat_mult r l c A (mat_mult l k c B C) ! i ! j"
    using ij by (simp add: mat_mult_nth)
qed (simp_all add: mat_mat_mult)

lemma mat_transpose_nth: "i < c \<Longrightarrow> j < r \<Longrightarrow> mat_transpose r c A ! i ! j = A ! j ! i"
  by (simp add: mat_transpose_def nth_mk_mat)

lemma mat_mat_transpose: "mat c r (mat_transpose r c A)"
  by (simp add: mat_transpose_def mat_mk_mat)

lemma mat_transpose_transpose: "mat r c A \<Longrightarrow> mat_transpose c r (mat_transpose r c A) = A"
  by (rule mat_eqI [of r c]) (simp_all add: mat_mat_transpose mat_transpose_nth)

lemma mat_transpose_mult:
  "mat_transpose r c (mat_mult r k c A B)
     = mat_mult c k r (mat_transpose k c B) (mat_transpose r k A)"
  by (rule mat_eqI [of c r])
     (simp_all add: mat_mat_transpose mat_mat_mult mat_transpose_nth mat_mult_nth mult.commute)

lemma mat_transpose_sub:
  "mat_transpose r c (mat_sub r c A B) = mat_sub c r (mat_transpose r c A) (mat_transpose r c B)"
  by (rule mat_eqI [of c r])
     (simp_all add: mat_mat_transpose mat_sub_def mat_mk_mat nth_mk_mat mat_transpose_nth)

lemma symmetric_mat: "symmetric n A \<Longrightarrow> mat n n A"
  by (metis symmetric_def mat_mat_transpose)

section \<open>Point sets under linear maps\<close>


lemma nth_mk_vec: "i < n \<Longrightarrow> mk_vec n f ! i = f i"
  by (simp add: mk_vec_def)

lemma length_mk_vec: "length (mk_vec n f) = n"
  by (simp add: mk_vec_def)

lemma mk_vec_cong: "(\<And>i. i < n \<Longrightarrow> f i = g i) \<Longrightarrow> mk_vec n f = mk_vec n g"
  by (simp add: mk_vec_def)

lemma mat_vec_nth: "i < r \<Longrightarrow> mat_vec r c A v ! i = (\<Sum>l<c. A ! i ! l * v ! l)"
  by (simp add: mat_vec_def nth_mk_vec sum_list_upt)

lemma mat_vec_mult: "mat_vec r k (mat_mult r n k H X) w = mat_vec r n H (mat_vec n k X w)"
proof -
  have "(\<Sum>l<k. (\<Sum>y<n. H ! i ! y * X ! y ! l) * w ! l)
      = (\<Sum>y<n. H ! i ! y * (\<Sum>l<k. X ! y ! l * w ! l))" for i
  proof -
    have "(\<Sum>l<k. (\<Sum>y<n. H ! i ! y * X ! y ! l) * w ! l)
        = (\<Sum>l<k. \<Sum>y<n. H ! i ! y * (X ! y ! l * w ! l))"
      by (simp add: sum_distrib_right mult.assoc)
    also have "\<dots> = (\<Sum>y<n. \<Sum>l<k. H ! i ! y * (X ! y ! l * w ! l))"
      by (rule sum.swap)
    finally show ?thesis by (simp add: sum_distrib_left)
  qed
  then show ?thesis
    unfolding mat_vec_def [of r k] mat_vec_def [of r n]
    by (intro mk_vec_cong) (simp add: sum_list_upt mat_mult_nth mat_vec_nth)
qed

lemma mean_centered_samples_linear:
  assumes "length (weights sp) = k"
  shows "mean_centered_samples r (linear_samples r n H sp)
     = (mat_vec r n H (fst (mean_centered_samples n sp)),
        mat_mult r n k H (snd (mean_centered_samples n sp)))"
proof -
  let ?m = "mat_vec n k (samples sp) (weights sp)"
  have "mk_mat r k (\<lambda>i j. mat_mult r n k H (samples sp) ! i ! j - mat_vec r n H ?m ! i)
      = mat_mult r n k H (mk_mat n k (\<lambda>i j. samples sp ! i ! j - ?m ! i))"
    unfolding mat_mult_def [of r n k H "mk_mat _ _ _"]
    by (intro mk_mat_cong)
       (simp add: sum_list_upt mat_mult_nth mat_vec_nth nth_mk_mat right_diff_distrib sum_subtractf)
  then show ?thesis
    using assms by (simp add: mean_centered_samples_def linear_samples_def Let_def mat_vec_mult)
qed

lemma statistics_linear:
  "statistics r (linear_samples r n H sp) = linear_belief r n H (statistics n sp)"
proof -
  define k where "k = length (weights sp)"
  define C where "C = snd (mean_centered_samples n sp)"
  define W where "W = asDiagonal k (weights sp)"
  have w: "weights (linear_samples r n H sp) = weights sp"
    by (simp add: linear_samples_def)
  have "mat_mult r k r (mat_mult r k k (mat_mult r n k H C) W) (mat_transpose r k (mat_mult r n k H C))
      = mat_mult r n r (mat_mult r n n H (mat_mult n k n (mat_mult n k k C W) (mat_transpose n k C)))
          (mat_transpose r n H)"
    by (simp add: mat_transpose_mult mat_mult_assoc)
  then show ?thesis
    by (simp add: statistics_def linear_belief_def Let_def split_beta w
        mean_centered_samples_linear [of sp k, OF k_def [symmetric]] k_def C_def W_def)
qed

section \<open>The two paths on linear models\<close>

lemma predict_sampled_linear:
  assumes "statistics (state_dim inst) (sample inst (estimate se)) = estimate se"
  shows "predict inst False t (linear_dynamics (state_dim inst) A) process_noise se
       = predict inst True t (linear_dynamics (state_dim inst) A) process_noise se"
proof -
  have "statistics (state_dim inst)
          (dynamics_samples (linear_dynamics (state_dim inst) A) (sample inst (estimate se)) dt)
      = dynamics_belief (linear_dynamics (state_dim inst) A) (estimate se) dt" for dt
    by (simp add: linear_dynamics_def statistics_linear assms)
  then show ?thesis
    by (simp add: predict_def Let_def)
qed

lemma predict_observation_sampled_linear:
  assumes "statistics (state_dim inst) (sample inst (estimate se)) = estimate se"
  shows "predict_observation inst m False (linear_observer m (state_dim inst) H) g se
       = predict_observation inst m True (linear_observer m (state_dim inst) H) g se"
proof -
  define n where "n = state_dim inst"
  define sp where "sp = sample inst (estimate se)"
  define k where "k = length (weights sp)"
  define C where "C = snd (mean_centered_samples n sp)"
  define W where "W = asDiagonal k (weights sp)"
  have st: "statistics n sp = estimate se"
    using assms by (simp add: n_def sp_def)
  have P: "covariance (estimate se) = mat_mult n k n (mat_mult n k k C W) (mat_transpose n k C)"
    unfolding st [symmetric]
    by (simp add: statistics_def Let_def split_beta k_def C_def W_def)
  have cross: "mat_mult n k m (mat_mult n k k C W) (mat_transpose m k (mat_mult m n k H C))
      = mat_mult n n m (covariance (estimate se)) (mat_transpose m n H)"
    unfolding P by (simp add: mat_transpose_mult mat_mult_assoc)
  have mcs: "snd (mean_centered_samples m (linear_samples m n H sp)) = mat_mult m n k H C"
    by (simp add: mean_centered_samples_linear [of sp k] k_def C_def)
  have stl: "statistics m (linear_samples m n H sp) = linear_belief m n H (estimate se)"
    by (simp add: statistics_linear st)
  have "predict_observation inst m False (linear_observer m n H) g se
      = (returned \<lparr>mean = mean (linear_belief m n H (estimate se)),
           covariance = covariance (linear_belief m n H (estimate se)),
           cross_covariance = mat_mult n k m (mat_mult n k k C W)
               (mat_transpose m k (mat_mult m n k H C))\<rparr>, se)"
    unfolding predict_observation_def linear_observer_def Let_def split_beta
    by (simp add: n_def [symmetric] sp_def [symmetric] k_def [symmetric] stl mcs
        C_def [symmetric] W_def [symmetric])
  moreover have "predict_observation inst m True (linear_observer m n H) g se
      = (returned \<lparr>mean = mean (linear_belief m n H (estimate se)),
           covariance = covariance (linear_belief m n H (estimate se)),
           cross_covariance = mat_mult n n m (covariance (estimate se)) (mat_transpose m n H)\<rparr>, se)"
    unfolding predict_observation_def linear_observer_def Let_def
    by (simp add: n_def [symmetric])
  ultimately show ?thesis
    unfolding n_def [symmetric] by (simp only: cross)
qed

section \<open>Symmetry\<close>

lemma symmetric_sub:
  assumes "symmetric n A" and "symmetric n B"
  shows "symmetric n (mat_sub n n A B)"
  using assms by (simp add: symmetric_def mat_transpose_sub)

lemma symmetric_congruence:
  assumes "symmetric m S"
  shows "symmetric n (mat_mult n m n (mat_mult n m m (mat_mult n k m X Y) S)
                        (mat_transpose n m (mat_mult n k m X Y)))"
proof -
  let ?K = "mat_mult n k m X Y"
  have K: "mat n m ?K" by (rule mat_mat_mult)
  have S: "mat_transpose m m S = S" using assms by (simp add: symmetric_def)
  have "mat_transpose n n (mat_mult n m n (mat_mult n m m ?K S) (mat_transpose n m ?K))
      = mat_mult n m n (mat_transpose m n (mat_transpose n m ?K))
          (mat_mult m m n (mat_transpose m m S) (mat_transpose n m ?K))"
    by (simp only: mat_transpose_mult)
  also have "\<dots> = mat_mult n m n ?K (mat_mult m m n S (mat_transpose n m ?K))"
    by (simp only: mat_transpose_transpose [OF K] S)
  also have "\<dots> = mat_mult n m n (mat_mult n m m ?K S) (mat_transpose n m ?K)"
    by (simp only: mat_mult_assoc)
  finally show ?thesis by (simp only: symmetric_def)
qed

section \<open>Evaluation of the instance\<close>

lemmas example_defs = example_instance_def example_estimator_def
  example_predicted_observation_def example_observation_def example_sampler_def

lemmas mat_defs = mat_add_def mat_sub_def mat_mult_def mat_smult_def mat_transpose_def
  mat_identity_def asDiagonal_def mat_vec_def vec_add_def vec_sub_def mk_mat_def mk_vec_def
  mat_def

lemma example_sampler_exact:
  "statistics (state_dim example_instance) (sample example_instance (estimate example_estimator))
     = estimate example_estimator"
  by code_simp

lemma example_sampler_2d_exact:
  "statistics (state_dim example_instance_2d)
     (sample example_instance_2d (estimate example_estimator_2d))
     = estimate example_estimator_2d"
  by code_simp

lemma example_sum_inverse:
  "inverse_of 2
     (mat_add 2 2 (covariance example_predicted_observation) (covariance example_observation))
     [[3 / 8, - 1 / 8], [- 1 / 8, 3 / 8]]"
  by code_simp

section \<open>Correctness of the LU solver\<close>

text \<open>
  The row operations keep the shape of a matrix, commute with multiplication from the
  right, and can be undone; so the second component of the pair stays invertible and
  maps the input matrix to the first component.  When the input has an inverse, every
  pivot is different from 0, the first component ends as the identity, and the second
  is the inverse.
\<close>

lemma mat_length: "mat r c M \<Longrightarrow> length M = r"
  by (simp add: mat_def)

lemma matI: "length M = r \<Longrightarrow> (\<And>i. i < r \<Longrightarrow> length (M ! i) = c) \<Longrightarrow> mat r c M"
  by (auto simp add: mat_def list_all_length)

lemma swap_rows_row:
  "mat n c M \<Longrightarrow> k < n \<Longrightarrow> p < n \<Longrightarrow> i < n \<Longrightarrow>
     swap_rows k p M ! i = (if i = p then M ! k else if i = k then M ! p else M ! i)"
  by (simp add: swap_rows_def mat_def nth_list_update)

lemma mat_swap_rows: "mat n c M \<Longrightarrow> k < n \<Longrightarrow> p < n \<Longrightarrow> mat n c (swap_rows k p M)"
  by (rule matI) (simp_all add: swap_rows_row mat_row_length, simp add: swap_rows_def mat_def)

lemma scale_row_nth:
  "mat n c M \<Longrightarrow> k < n \<Longrightarrow> i < n \<Longrightarrow> j < c \<Longrightarrow>
     scale_row k s M ! i ! j = (if i = k then s * M ! k ! j else M ! i ! j)"
  by (simp add: scale_row_def mat_length nth_list_update mat_row_length)

lemma mat_scale_row: "mat n c M \<Longrightarrow> k < n \<Longrightarrow> mat n c (scale_row k s M)"
  by (rule matI) (simp_all add: scale_row_def mat_length nth_list_update mat_row_length)

lemma eliminate_nth:
  "mat n c M \<Longrightarrow> k < n \<Longrightarrow> i < n \<Longrightarrow> j < c \<Longrightarrow>
     eliminate k f M ! i ! j = (if i = k then M ! k ! j else M ! i ! j - f ! i * M ! k ! j)"
  by (simp add: eliminate_def mat_length mat_row_length)

lemma mat_eliminate: "mat n c M \<Longrightarrow> k < n \<Longrightarrow> mat n c (eliminate k f M)"
  by (rule matI) (simp_all add: eliminate_def mat_length mat_row_length)

lemma column_nth: "mat n c M \<Longrightarrow> i < n \<Longrightarrow> column k M ! i = M ! i ! k"
  by (simp add: column_def mat_length)

lemma mat_identity_nth: "i < n \<Longrightarrow> j < n \<Longrightarrow> mat_identity n ! i ! j = (if i = j then 1 else 0)"
  by (simp add: mat_identity_def nth_mk_mat)

lemma mat_mat_identity: "mat n n (mat_identity n)"
  by (simp add: mat_identity_def mat_mk_mat)

lemma sum_delta_left:
  "i < (n::nat) \<Longrightarrow> (\<Sum>l<n. (if i = l then 1 else 0) * f l) = (f i :: 'a::linordered_field)"
proof -
  assume i: "i < n"
  have "(\<Sum>l<n. (if i = l then 1 else 0) * f l) = (\<Sum>l<n. if l = i then f l else 0)"
    by (rule sum.cong) auto
  also have "\<dots> = f i" using i by (simp add: sum.delta)
  finally show ?thesis .
qed

lemma sum_delta_right:
  "j < (n::nat) \<Longrightarrow> (\<Sum>l<n. f l * (if l = j then 1 else 0)) = (f j :: 'a::linordered_field)"
proof -
  assume j: "j < n"
  have "(\<Sum>l<n. f l * (if l = j then 1 else 0)) = (\<Sum>l<n. if l = j then f l else 0)"
    by (rule sum.cong) auto
  also have "\<dots> = f j" using j by (simp add: sum.delta)
  finally show ?thesis .
qed

lemma mat_mult_identity_left: "mat n c A \<Longrightarrow> mat_mult n n c (mat_identity n) A = A"
  by (rule mat_eqI [of n c]) (simp_all add: mat_mat_mult mat_mult_nth mat_identity_nth sum_delta_left)

lemma mat_mult_identity_right: "mat r n A \<Longrightarrow> mat_mult r n n A (mat_identity n) = A"
  by (rule mat_eqI [of r n]) (simp_all add: mat_mat_mult mat_mult_nth mat_identity_nth sum_delta_right)

lemma swap_rows_mult:
  assumes "mat n n E" and "k < n" and "p < n"
  shows "swap_rows k p (mat_mult n n c E X) = mat_mult n n c (swap_rows k p E) X"
proof (rule mat_eqI [of n c])
  fix i j assume "i < n" "j < c"
  then show "swap_rows k p (mat_mult n n c E X) ! i ! j = mat_mult n n c (swap_rows k p E) X ! i ! j"
    using assms
    by (simp add: swap_rows_row [of n c] swap_rows_row [of n n] mat_mat_mult mat_mult_nth)
qed (simp_all add: assms mat_swap_rows mat_mat_mult)

lemma scale_row_mult:
  assumes "mat n n E" and "k < n"
  shows "scale_row k s (mat_mult n n c E X) = mat_mult n n c (scale_row k s E) X"
proof (rule mat_eqI [of n c])
  fix i j assume "i < n" "j < c"
  then show "scale_row k s (mat_mult n n c E X) ! i ! j = mat_mult n n c (scale_row k s E) X ! i ! j"
    using assms
    by (simp add: scale_row_nth [of n c] scale_row_nth [of n n] mat_mat_mult mat_mult_nth
        sum_distrib_left mult.assoc)
qed (simp_all add: assms mat_scale_row mat_mat_mult)

lemma eliminate_mult:
  assumes "mat n n E" and "k < n"
  shows "eliminate k f (mat_mult n n c E X) = mat_mult n n c (eliminate k f E) X"
proof (rule mat_eqI [of n c])
  fix i j assume "i < n" "j < c"
  then show "eliminate k f (mat_mult n n c E X) ! i ! j = mat_mult n n c (eliminate k f E) X ! i ! j"
    using assms
    by (simp add: eliminate_nth [of n c] eliminate_nth [of n n] mat_mat_mult mat_mult_nth
        sum_distrib_left sum_subtractf left_diff_distrib mult.assoc)
qed (simp_all add: assms mat_eliminate mat_mat_mult)

lemma swap_rows_swap_rows:
  "mat n c M \<Longrightarrow> k < n \<Longrightarrow> p < n \<Longrightarrow> swap_rows k p (swap_rows k p M) = M"
  by (rule mat_eqI [of n c]) (simp_all add: mat_swap_rows swap_rows_row [of n c])

lemma scale_row_scale_row:
  "mat n c M \<Longrightarrow> k < n \<Longrightarrow> s \<noteq> 0 \<Longrightarrow> scale_row k s (scale_row k (1 / s) M) = M"
  by (rule mat_eqI [of n c]) (simp_all add: mat_scale_row scale_row_nth [of n c])

lemma eliminate_eliminate:
  "mat n c M \<Longrightarrow> k < n \<Longrightarrow> length f = n \<Longrightarrow> eliminate k f (eliminate k (map uminus f) M) = M"
  by (rule mat_eqI [of n c]) (simp_all add: mat_eliminate eliminate_nth [of n c])

lemma inverse_of_unique:
  assumes "inverse_of n A B" and "inverse_of n A C"
  shows "B = C"
proof -
  have "B = mat_mult n n n B (mat_mult n n n A C)"
    using assms by (simp add: inverse_of_def mat_mult_identity_right)
  also have "\<dots> = mat_mult n n n (mat_mult n n n B A) C"
    by (simp only: mat_mult_assoc)
  also have "\<dots> = C"
    using assms by (simp add: inverse_of_def mat_mult_identity_left)
  finally show ?thesis .
qed

lemma inverse_of_sym: "inverse_of n A B \<Longrightarrow> inverse_of n B A"
  by (simp add: inverse_of_def)

lemma inverse_of_identity: "inverse_of n (mat_identity n) (mat_identity n)"
  by (simp add: inverse_of_def mat_mat_identity mat_mult_identity_left)

lemma inverse_of_mult:
  assumes "inverse_of n E E'" and "inverse_of n B C"
  shows "inverse_of n (mat_mult n n n E B) (mat_mult n n n C E')"
proof -
  have E: "mat n n E" "mat n n E'" "mat_mult n n n E E' = mat_identity n"
    "mat_mult n n n E' E = mat_identity n"
    using assms(1) by (simp_all add: inverse_of_def)
  have B: "mat n n B" "mat n n C" "mat_mult n n n B C = mat_identity n"
    "mat_mult n n n C B = mat_identity n"
    using assms(2) by (simp_all add: inverse_of_def)
  have "mat_mult n n n (mat_mult n n n E B) (mat_mult n n n C E')
      = mat_mult n n n E (mat_mult n n n (mat_mult n n n B C) E')"
    by (simp only: mat_mult_assoc)
  also have "\<dots> = mat_identity n"
    by (simp add: B E mat_mult_identity_left)
  finally have 1: "mat_mult n n n (mat_mult n n n E B) (mat_mult n n n C E') = mat_identity n" .
  have "mat_mult n n n (mat_mult n n n C E') (mat_mult n n n E B)
      = mat_mult n n n C (mat_mult n n n (mat_mult n n n E' E) B)"
    by (simp only: mat_mult_assoc)
  also have "\<dots> = mat_identity n"
    by (simp add: B E mat_mult_identity_left)
  finally have 2: "mat_mult n n n (mat_mult n n n C E') (mat_mult n n n E B) = mat_identity n" .
  show ?thesis
    by (simp add: inverse_of_def mat_mat_mult 1 2)
qed

text \<open>A row operation is the product with the operation applied to the identity.\<close>

lemma swap_rows_invertible:
  assumes "inverse_of n B C" and "k < n" and "p < n"
  shows "\<exists>C'. inverse_of n (swap_rows k p B) C'"
proof -
  let ?E = "swap_rows k p (mat_identity n)"
  have B: "mat n n B" using assms(1) by (simp add: inverse_of_def)
  have E: "mat n n ?E" by (simp add: mat_swap_rows mat_mat_identity assms)
  have "mat_mult n n n ?E ?E = swap_rows k p (mat_mult n n n (mat_identity n) ?E)"
    by (simp add: swap_rows_mult mat_mat_identity assms)
  also have "\<dots> = mat_identity n"
    by (simp add: mat_mult_identity_left E swap_rows_swap_rows [of n n] mat_mat_identity assms)
  finally have "inverse_of n ?E ?E"
    by (simp add: inverse_of_def E)
  moreover have "swap_rows k p B = mat_mult n n n ?E B"
    using swap_rows_mult [of n "mat_identity n" k p n B]
    by (simp add: mat_mat_identity assms mat_mult_identity_left B)
  ultimately show ?thesis
    using inverse_of_mult [OF _ assms(1)] by metis
qed

lemma scale_row_invertible:
  assumes "inverse_of n B C" and "k < n" and "s \<noteq> 0"
  shows "\<exists>C'. inverse_of n (scale_row k s B) C'"
proof -
  let ?E = "scale_row k s (mat_identity n)"
  let ?E' = "scale_row k (1 / s) (mat_identity n)"
  have B: "mat n n B" using assms(1) by (simp add: inverse_of_def)
  have E: "mat n n ?E" "mat n n ?E'" by (simp_all add: mat_scale_row mat_mat_identity assms)
  have "mat_mult n n n ?E ?E' = scale_row k s (mat_mult n n n (mat_identity n) ?E')"
    by (simp add: scale_row_mult mat_mat_identity assms)
  also have "\<dots> = mat_identity n"
    by (simp add: mat_mult_identity_left E scale_row_scale_row [of n n] mat_mat_identity assms)
  finally have 1: "mat_mult n n n ?E ?E' = mat_identity n" .
  have "mat_mult n n n ?E' ?E = scale_row k (1 / s) (mat_mult n n n (mat_identity n) ?E)"
    by (simp add: scale_row_mult mat_mat_identity assms)
  also have "\<dots> = mat_identity n"
    using scale_row_scale_row [of n n "mat_identity n" k "1 / s"]
    by (simp add: mat_mult_identity_left E mat_mat_identity assms)
  finally have "inverse_of n ?E ?E'"
    by (simp add: inverse_of_def E 1)
  moreover have "scale_row k s B = mat_mult n n n ?E B"
    using scale_row_mult [of n "mat_identity n" k s n B]
    by (simp add: mat_mat_identity assms mat_mult_identity_left B)
  ultimately show ?thesis
    using inverse_of_mult [OF _ assms(1)] by metis
qed

lemma eliminate_invertible:
  assumes "inverse_of n B C" and "k < n" and "length f = n"
  shows "\<exists>C'. inverse_of n (eliminate k f B) C'"
proof -
  let ?E = "eliminate k f (mat_identity n)"
  let ?E' = "eliminate k (map uminus f) (mat_identity n)"
  have B: "mat n n B" using assms(1) by (simp add: inverse_of_def)
  have E: "mat n n ?E" "mat n n ?E'" by (simp_all add: mat_eliminate mat_mat_identity assms)
  have "mat_mult n n n ?E ?E' = eliminate k f (mat_mult n n n (mat_identity n) ?E')"
    by (simp add: eliminate_mult mat_mat_identity assms)
  also have "\<dots> = mat_identity n"
    by (simp add: mat_mult_identity_left E eliminate_eliminate [of n n] mat_mat_identity assms)
  finally have 1: "mat_mult n n n ?E ?E' = mat_identity n" .
  have "mat_mult n n n ?E' ?E = eliminate k (map uminus f) (mat_mult n n n (mat_identity n) ?E)"
    by (simp add: eliminate_mult mat_mat_identity assms)
  also have "\<dots> = mat_identity n"
    using eliminate_eliminate [of n n "mat_identity n" k "map uminus f"]
    by (simp add: mat_mult_identity_left E mat_mat_identity assms o_def)
  finally have "inverse_of n ?E ?E'"
    by (simp add: inverse_of_def E 1)
  moreover have "eliminate k f B = mat_mult n n n ?E B"
    using eliminate_mult [of n "mat_identity n" k f n B]
    by (simp add: mat_mat_identity assms mat_mult_identity_left B)
  ultimately show ?thesis
    using inverse_of_mult [OF _ assms(1)] by metis
qed

lemma pivot_fold:
  fixes A :: "'a::linordered_field mat" and k :: nat
  defines "g \<equiv> (\<lambda>i p. if \<bar>A ! p ! k\<bar> < \<bar>A ! i ! k\<bar> then i else p)"
  shows "(fold g xs p0 = p0 \<or> fold g xs p0 \<in> set xs)
       \<and> \<bar>A ! p0 ! k\<bar> \<le> \<bar>A ! fold g xs p0 ! k\<bar>
       \<and> (\<forall>i\<in>set xs. \<bar>A ! i ! k\<bar> \<le> \<bar>A ! fold g xs p0 ! k\<bar>)"
proof (induction xs arbitrary: p0)
  case Nil
  show ?case by simp
next
  case (Cons x xs)
  have step: "\<bar>A ! p0 ! k\<bar> \<le> \<bar>A ! g x p0 ! k\<bar>" "\<bar>A ! x ! k\<bar> \<le> \<bar>A ! g x p0 ! k\<bar>"
    "g x p0 = p0 \<or> g x p0 = x"
    by (simp_all add: g_def)
  from Cons [of "g x p0"] step show ?case
    by (auto intro: order_trans)
qed

lemma pivot_row_range: "k < n \<Longrightarrow> k \<le> pivot_row n k A \<and> pivot_row n k A < n"
  using pivot_fold [where xs = "[k..<n]" and ?p0.0 = k and A = A and k = k] by (auto simp add: pivot_row_def)

lemma pivot_row_max:
  "k \<le> i \<Longrightarrow> i < n \<Longrightarrow> \<bar>A ! i ! k\<bar> \<le> \<bar>A ! pivot_row n k A ! k\<bar>"
  using pivot_fold [where xs = "[k..<n]" and ?p0.0 = k and A = A and k = k] by (simp add: pivot_row_def)

lemma pivot_row_zero:
  "A ! pivot_row n k A ! k = 0 \<Longrightarrow> k \<le> i \<Longrightarrow> i < n \<Longrightarrow> A ! i ! k = 0"
  using pivot_row_max [of k i n A] by simp

text \<open>
  A matrix with a left inverse whose first \<open>k\<close> columns are unit vectors has a nonzero
  entry in column \<open>k\<close> at or below the diagonal: otherwise it sends a nonzero vector to 0.
\<close>

lemma pivot_exists:
  fixes A :: "'a::linordered_field mat"
  assumes left: "mat_mult n n n L A = mat_identity n"
    and k: "k < n"
    and unit: "\<And>i j. i < n \<Longrightarrow> j < k \<Longrightarrow> A ! i ! j = (if i = j then 1 else 0)"
    and zero: "\<And>i. k \<le> i \<Longrightarrow> i < n \<Longrightarrow> A ! i ! k = 0"
  shows False
proof -
  obtain c :: nat where c: "0 < c" by blast
  define v :: "'a mat" where
    "v = mk_mat n c (\<lambda>i j. if i < k then - A ! i ! k else if i = k then 1 else 0)"
  have v: "mat n c v" by (simp add: v_def mat_mk_mat)
  have vn: "v ! l ! 0 = (if l < k then - A ! l ! k else if l = k then 1 else 0)" if "l < n" for l
    using that c by (simp add: v_def nth_mk_mat)
  have Av: "mat_mult n n c A v ! i ! 0 = 0" if i: "i < n" for i
  proof -
    have "A ! i ! l * v ! l ! 0
        = (if l = i then (if i < k then - A ! i ! k else 0) else 0)
          + (if l = k then A ! i ! k else 0)" if "l < n" for l
      using that i k unit [of i l] by (auto simp add: vn)
    then have "(\<Sum>l<n. A ! i ! l * v ! l ! 0)
        = (\<Sum>l<n. (if l = i then (if i < k then - A ! i ! k else 0) else 0)
             + (if l = k then A ! i ! k else 0))"
      by (intro sum.cong) simp_all
    also have "\<dots> = (if i < k then - A ! i ! k else 0) + A ! i ! k"
      using i k by (simp add: sum.distrib)
    also have "\<dots> = 0"
      using zero [of i] i by simp
    finally show ?thesis using i c by (simp add: mat_mult_nth)
  qed
  have "mat_mult n n c (mat_mult n n n L A) v = mat_mult n n c L (mat_mult n n c A v)"
    by (rule mat_mult_assoc)
  moreover have "mat_mult n n c (mat_identity n) v = v"
    by (rule mat_mult_identity_left [OF v])
  ultimately have "v = mat_mult n n c L (mat_mult n n c A v)"
    by (simp only: left)
  then have "v ! k ! 0 = mat_mult n n c L (mat_mult n n c A v) ! k ! 0"
    by simp
  also have "\<dots> = 0"
    using k c by (simp add: mat_mult_nth [of k n 0 c] Av)
  finally show False
    using k by (simp add: vn)
qed

lemma lu_step_invariant:
  fixes A0 :: "'a::linordered_field mat"
  assumes A0: "inverse_of n A0 N" and k: "k < n"
    and A: "mat n n A" and B: "inverse_of n B C" and BA: "mat_mult n n n B A0 = A"
    and unit: "\<And>i j. i < n \<Longrightarrow> j < k \<Longrightarrow> A ! i ! j = (if i = j then 1 else 0)"
  shows "\<exists>A' B' C'. lu_step n k (A, B) = (A', B') \<and> mat n n A' \<and> inverse_of n B' C'
           \<and> mat_mult n n n B' A0 = A'
           \<and> (\<forall>i<n. \<forall>j<Suc k. A' ! i ! j = (if i = j then 1 else 0))"
proof -
  define p where "p = pivot_row n k A"
  define A1 where "A1 = swap_rows k p A"
  define B1 where "B1 = swap_rows k p B"
  define s where "s = 1 / A1 ! k ! k"
  define A2 where "A2 = scale_row k s A1"
  define B2 where "B2 = scale_row k s B1"
  define f where "f = column k A2"
  define A3 where "A3 = eliminate k f A2"
  define B3 where "B3 = eliminate k f B2"
  have step: "lu_step n k (A, B) = (A3, B3)"
    by (simp add: lu_step_def Let_def p_def A1_def B1_def s_def A2_def B2_def f_def A3_def B3_def)
  have mB: "mat n n B" using B by (simp add: inverse_of_def)
  have p: "k \<le> p" "p < n" using pivot_row_range [OF k, of A] by (simp_all add: p_def)
  \<comment> \<open>the pivot is not zero\<close>
  have "mat_mult n n n (mat_mult n n n N C) (mat_mult n n n B A0)
      = mat_mult n n n N (mat_mult n n n (mat_mult n n n C B) A0)"
    by (simp only: mat_mult_assoc)
  also have "\<dots> = mat_identity n"
    using A0 B by (simp add: inverse_of_def mat_mult_identity_left)
  finally have left: "mat_mult n n n (mat_mult n n n N C) A = mat_identity n"
    by (simp only: BA)
  have pivot: "A ! p ! k \<noteq> 0"
  proof
    assume "A ! p ! k = 0"
    then have "\<And>i. k \<le> i \<Longrightarrow> i < n \<Longrightarrow> A ! i ! k = 0"
      unfolding p_def by (rule pivot_row_zero)
    with left k unit show False by (rule pivot_exists)
  qed
  \<comment> \<open>the three row operations\<close>
  have mA1: "mat n n A1" and mB1: "mat n n B1"
    using A mB k p by (simp_all add: A1_def B1_def mat_swap_rows)
  have A1n: "A1 ! i ! j = (if i = p then A ! k ! j else if i = k then A ! p ! j else A ! i ! j)"
    if "i < n" for i j
    using that A k p by (simp add: A1_def swap_rows_row [of n n])
  have BA1: "mat_mult n n n B1 A0 = A1"
    using swap_rows_mult [OF mB k p(2), of n A0] by (simp add: A1_def B1_def BA)
  obtain C1 where C1: "inverse_of n B1 C1"
    using swap_rows_invertible [OF B k p(2)] by (auto simp add: B1_def)
  have A1kk: "A1 ! k ! k = A ! p ! k" using k by (simp add: A1n)
  have s: "s \<noteq> 0" "s * A1 ! k ! k = 1" using pivot by (simp_all add: s_def A1kk)
  have mA2: "mat n n A2" and mB2: "mat n n B2"
    using mA1 mB1 k by (simp_all add: A2_def B2_def mat_scale_row)
  have A2n: "A2 ! i ! j = (if i = k then s * A1 ! k ! j else A1 ! i ! j)"
    if "i < n" "j < n" for i j
    using that mA1 k by (simp add: A2_def scale_row_nth [of n n])
  have BA2: "mat_mult n n n B2 A0 = A2"
    using scale_row_mult [OF mB1 k, of s n A0] by (simp add: A2_def B2_def BA1)
  obtain C2 where C2: "inverse_of n B2 C2"
    using scale_row_invertible [OF C1 k s(1)] by (auto simp add: B2_def)
  have lf: "length f = n" using mA2 by (simp add: f_def column_def mat_length)
  have fn: "f ! i = A2 ! i ! k" if "i < n" for i
    using that mA2 by (simp add: f_def column_nth [of n n])
  have mA3: "mat n n A3"
    using mA2 k by (simp add: A3_def mat_eliminate)
  have A3n: "A3 ! i ! j = (if i = k then A2 ! k ! j else A2 ! i ! j - A2 ! i ! k * A2 ! k ! j)"
    if "i < n" "j < n" for i j
    using that mA2 k by (simp add: A3_def eliminate_nth [of n n] fn)
  have BA3: "mat_mult n n n B3 A0 = A3"
    using eliminate_mult [OF mB2 k, of f n A0] by (simp add: A3_def B3_def BA2)
  obtain C3 where C3: "inverse_of n B3 C3"
    using eliminate_invertible [OF C2 k lf] by (auto simp add: B3_def)
  \<comment> \<open>the columns up to \<open>k\<close> are unit vectors\<close>
  have row_k: "A2 ! k ! j = (if j = k then 1 else 0)" if "j < Suc k" for j
  proof (cases "j = k")
    case True
    then show ?thesis using k s by (simp add: A2n)
  next
    case False
    then have j: "j < k" using that by simp
    then have "A ! p ! j = 0" "A ! k ! j = 0" using unit [of p j] unit [of k j] p k by simp_all
    then show ?thesis using k j by (simp add: A2n A1n)
  qed
  have "A3 ! i ! j = (if i = j then 1 else 0)" if i: "i < n" and j: "j < Suc k" for i j
  proof (cases "i = k")
    case True
    then show ?thesis using i j k row_k [OF j] by (auto simp add: A3n)
  next
    case ik: False
    show ?thesis
    proof (cases "j = k")
      case True
      then show ?thesis using i k ik row_k [of k] by (simp add: A3n)
    next
      case False
      then have jk: "j < k" using j by simp
      then have "A2 ! i ! j = (if i = j then 1 else 0)"
        using i k p ik unit [of i j] unit [of k j] by (auto simp add: A2n A1n)
      then show ?thesis using i k jk ik row_k [OF j] by (simp add: A3n)
    qed
  qed
  then show ?thesis
    using step mA3 C3 BA3 by blast
qed

lemma lu_fold_invariant:
  fixes A0 :: "'a::linordered_field mat"
  assumes "inverse_of n A0 N" and "k \<le> n"
  shows "\<exists>A B C. fold (lu_step n) [0..<k] (A0, mat_identity n) = (A, B) \<and> mat n n A
           \<and> inverse_of n B C \<and> mat_mult n n n B A0 = A
           \<and> (\<forall>i<n. \<forall>j<k. A ! i ! j = (if i = j then 1 else 0))"
  using assms(2)
proof (induction k)
  case 0
  have "mat n n A0" using assms(1) by (simp add: inverse_of_def)
  then show ?case
    using inverse_of_identity [of n] by (auto simp add: mat_mult_identity_left)
next
  case (Suc k)
  then obtain A B C where
    IH: "fold (lu_step n) [0..<k] (A0, mat_identity n) = (A, B)" "mat n n A" "inverse_of n B C"
      "mat_mult n n n B A0 = A" "\<And>i j. i < n \<Longrightarrow> j < k \<Longrightarrow> A ! i ! j = (if i = j then 1 else 0)"
    by auto
  have k: "k < n" using Suc.prems by simp
  show ?case
    using lu_step_invariant [OF assms(1) k IH(2,3,4,5)] by (simp add: IH(1))
qed

lemma PartialPivLU_inverse_correct:
  fixes A0 :: "'a::linordered_field mat"
  assumes "inverse_of n A0 N"
  shows "PartialPivLU_inverse n A0 = N"
proof -
  obtain A B C where
    f: "fold (lu_step n) [0..<n] (A0, mat_identity n) = (A, B)" and A: "mat n n A"
    and B: "inverse_of n B C" and BA: "mat_mult n n n B A0 = A"
    and unit: "\<And>i j. i < n \<Longrightarrow> j < n \<Longrightarrow> A ! i ! j = (if i = j then 1 else 0)"
    using lu_fold_invariant [OF assms order_refl] by auto
  have "A = mat_identity n"
    by (rule mat_eqI [of n n]) (simp_all add: A mat_mat_identity mat_identity_nth unit)
  then have BA0: "mat_mult n n n B A0 = mat_identity n" using BA by simp
  have mA0: "mat n n A0" using assms by (simp add: inverse_of_def)
  have "A0 = mat_mult n n n (mat_mult n n n C B) A0"
    using B mA0 by (simp add: inverse_of_def mat_mult_identity_left)
  also have "\<dots> = mat_mult n n n C (mat_mult n n n B A0)"
    by (simp only: mat_mult_assoc)
  also have "\<dots> = C"
    using B by (simp add: BA0 inverse_of_def mat_mult_identity_right)
  finally have "inverse_of n A0 B"
    using B by (simp add: inverse_of_sym)
  then have "B = N" using assms by (rule inverse_of_unique)
  then show ?thesis by (simp add: PartialPivLU_inverse_def f)
qed

section \<open>Time points\<close>

lemma ticks_zero: "ticks inst (0 :: 'w::len word) = 0"
  by (simp add: ticks_def)

lemma ticks_minus_one_uint32: "ticks unsigned_instance (- 1 :: 32 word) = 4294967295"
  by (simp add: ticks_def unsigned_instance_def unsigned_minus_1_eq_mask mask_eq_exp_minus_1)

lemma ticks_difference_int16:
  "ticks example_instance ((20000 :: 16 word) - time example_estimator_int16) = - 25536"
  by (simp add: ticks_def example_instance_def example_estimator_int16_def sint_word_ariths
      signed_take_bit_eq_take_bit_shift)

lemma predict_observation_estimator:
  "snd (predict_observation inst m callable observer augmented_state se) = se"
  by (simp add: predict_observation_def Let_def split_beta split: sum.splits)

lemma predict_time_monotone:
  assumes "difference_representable inst (time se) t"
  shows "ticks inst (time se) \<le> ticks inst (time (snd (predict inst callable t dynamics process_noise se)))"
  using assms by (simp add: predict_def difference_representable_def Let_def)

lemma apply_operation_time_monotone:
  assumes "target_representable inst operation se"
    and "apply_operation inst operation se = returned se'"
  shows "ticks inst (time se) \<le> ticks inst (time se')"
proof (cases operation)
  case (Predict callable t dynamics process_noise)
  then show ?thesis using assms predict_time_monotone [of inst se t] by auto
next
  case (PredictObservation m callable observer augmented_state)
  then show ?thesis
    using assms predict_observation_estimator [of inst m callable observer augmented_state se]
    by (auto split: prod.splits noexcept.splits)
next
  case (Assimilate m po observation)
  then show ?thesis using assms by (auto simp add: assimilate_def Let_def)
qed

lemma run_time_sorted:
  assumes "differences_representable inst operations se"
  shows "sorted (map (\<lambda>s. ticks inst (time s)) (se # run inst operations se))"
  using assms
proof (induction operations arbitrary: se)
  case Nil
  show ?case by simp
next
  case (Cons operation operations)
  show ?case
  proof (cases "apply_operation inst operation se")
    case terminate
    then show ?thesis by simp
  next
    case (returned se')
    have "target_representable inst operation se"
      and rest: "differences_representable inst operations se'"
      using Cons.prems returned by simp_all
    then have "ticks inst (time se) \<le> ticks inst (time se')"
      using returned by (simp add: apply_operation_time_monotone)
    moreover have "sorted (map (\<lambda>s. ticks inst (time s)) (se' # run inst operations se'))"
      using rest by (rule Cons.IH)
    ultimately show ?thesis using returned by auto
  qed
qed

section \<open>Properties of the estimator\<close>

text \<open>
  C1.  \<open>assimilate\<close> is the Kalman update: with \<open>S\<close> the sum of the covariances of the
  predicted and of the actual observation, \<open>S\<close> invertible with inverse \<open>Sinv\<close>, and
  \<open>K = cross_covariance \<times> Sinv\<close>, the mean becomes
  \<open>mean + K (observation.mean - predicted_observation.mean)\<close>, the covariance becomes
  \<open>covariance - K S K\<^sup>T\<close>, and the time is the one before the call.
\<close>

theorem assimilate_kalman_update:
  assumes "inverse_of m (mat_add m m (covariance po) (covariance observation)) Sinv"
  shows "assimilate inst m po observation se =
     (let n = state_dim inst;
          S = mat_add m m (covariance po) (covariance observation);
          K = mat_mult n m m (cross_covariance po) Sinv
      in \<lparr>time = time se,
          estimate =
            \<lparr>mean = vec_add n (mean (estimate se))
                      (mat_vec n m K (vec_sub m (mean observation) (mean po))),
             covariance = mat_sub n n (covariance (estimate se))
                      (mat_mult n m n (mat_mult n m m K S) (mat_transpose n m K))\<rparr>\<rparr>)"
  using PartialPivLU_inverse_correct [OF assms] by (simp add: assimilate_def Let_def)

theorem assimilate_kalman_update_witness:
  "inverse_of 2
     (mat_add 2 2 (covariance example_predicted_observation) (covariance example_observation))
     [[3 / 8, - 1 / 8], [- 1 / 8, 3 / 8]]
   \<and> assimilate example_instance 2 example_predicted_observation example_observation
       example_estimator
     = \<lparr>time = 500, estimate = \<lparr>mean = [7 / 4], covariance = [[7 / 2]]\<rparr>\<rparr>"
proof -
  have "(let n = state_dim example_instance;
          S = mat_add 2 2 (covariance example_predicted_observation)
                (covariance example_observation);
          K = mat_mult n 2 2 (cross_covariance example_predicted_observation)
                [[3 / 8, - 1 / 8], [- 1 / 8, 3 / 8]]
      in \<lparr>time = time example_estimator,
          estimate =
            \<lparr>mean = vec_add n (mean (estimate example_estimator))
                      (mat_vec n 2 K (vec_sub 2 (mean example_observation)
                         (mean example_predicted_observation))),
             covariance = mat_sub n n (covariance (estimate example_estimator))
                      (mat_mult n 2 n (mat_mult n 2 2 K S) (mat_transpose n 2 K))\<rparr>\<rparr>)
      = \<lparr>time = 500, estimate = \<lparr>mean = [7 / 4], covariance = [[7 / 2]]\<rparr>\<rparr>"
    by code_simp
  then show ?thesis
    using assimilate_kalman_update [OF example_sum_inverse, of example_instance example_estimator]
      example_sum_inverse
    by simp
qed

text \<open>
  C2.  As stated the claim fails: with unsigned ticks the difference of an earlier time
  and the estimator's time wraps around to a positive count, \<open>predict\<close> does not throw and
  moves the time back.
\<close>

theorem predict_earlier_time_unsigned_counterexample:
  "ticks unsigned_instance (499 :: 32 word) < ticks unsigned_instance (time example_estimator_uint32)
   \<and> predict unsigned_instance True 499 (linear_dynamics 1 [[1]])
       (process_noise_of 1 \<lparr>process_noise_per_second = [[0]]\<rparr>) example_estimator_uint32
     = (Inr (), \<lparr>time = 499, estimate = \<lparr>mean = [1], covariance = [[4]]\<rparr>\<rparr>)"
proof -
  have "ticks unsigned_instance (499 :: 32 word) < ticks unsigned_instance (time example_estimator_uint32)"
    by (simp add: ticks_def unsigned_instance_def example_estimator_uint32_def)
  moreover have "linear_belief 1 1 [[1]] (estimate example_estimator_uint32)
      = \<lparr>mean = [1], covariance = [[4]]\<rparr>"
    by code_simp
  moreover have "mat_add 1 1 [[4]] (mat_smult 1 1 dt [[0]]) = [[4 :: real]]" for dt
    by (simp add: mat_defs)
  ultimately show ?thesis
    by (simp add: predict_def ticks_minus_one_uint32 linear_dynamics_def process_noise_of_def
        TimeDependentAdditiveProcessNoise_call_def Let_def example_estimator_uint32_def)
qed

text \<open>
  C2, amended.  \<open>predict\<close> to a time strictly earlier than the estimator's time, with a
  difference that the tick representation can represent, throws the \<open>runtime_error\<close>
  ``Unable to wind back time'' (the spec's InvalidTimeOrder) and leaves the estimator,
  time and estimate, as it was.
\<close>

theorem predict_earlier_time_fails:
  assumes "ticks inst t < ticks inst (time se)"
    and "difference_representable inst (time se) t"
  shows "predict inst callable t dynamics process_noise se = (Inl InvalidTimeOrder, se)"
  using assms by (simp add: predict_def difference_representable_def)

theorem predict_earlier_time_fails_witness:
  "ticks example_instance (499 :: 64 word) < ticks example_instance (time example_estimator)
   \<and> difference_representable example_instance (time example_estimator) 499
   \<and> predict example_instance False 499 (linear_dynamics 1 [[3]])
       (process_noise_of 1 \<lparr>process_noise_per_second = [[2]]\<rparr>) example_estimator
     = (Inl InvalidTimeOrder, example_estimator)"
proof -
  have h1: "ticks example_instance (499 :: 64 word) < ticks example_instance (time example_estimator)"
    by (simp add: ticks_def example_instance_def example_estimator_def)
  have h2: "difference_representable example_instance (time example_estimator) 499"
    by (simp add: difference_representable_def ticks_def example_instance_def example_estimator_def)
  show ?thesis using h1 h2 predict_earlier_time_fails [OF h1 h2] by simp
qed

text \<open>
  C3.  As stated the claim fails: with signed 16-bit ticks the difference of a later time
  and the estimator's time can wrap around to a negative count, and \<open>predict\<close> throws.
\<close>

theorem predict_later_time_int16_counterexample:
  "ticks example_instance (time example_estimator_int16) < ticks example_instance (20000 :: 16 word)
   \<and> predict example_instance True 20000 (linear_dynamics 1 [[3]])
       (process_noise_of 1 \<lparr>process_noise_per_second = [[2]]\<rparr>) example_estimator_int16
     = (Inl InvalidTimeOrder, example_estimator_int16)"
proof -
  have "ticks example_instance (time example_estimator_int16) < ticks example_instance (20000 :: 16 word)"
    by (simp add: ticks_def example_instance_def example_estimator_int16_def)
  then show ?thesis
    by (simp add: predict_def ticks_difference_int16)
qed

text \<open>
  C3, amended.  On the differentiable path, with the linear dynamics of transition
  matrix \<open>A\<close> and the time-dependent additive process noise of rate \<open>Q\<close>, \<open>predict\<close> to a later
  time \<open>t\<close>, with a difference that the tick representation can represent and that
  amounts to \<open>dt\<close> seconds, succeeds and leaves time \<open>t\<close>, mean \<open>A m\<close> and covariance
  \<open>A P A\<^sup>T + dt Q\<close>.
\<close>

theorem predict_linear_additive_noise:
  assumes "ticks inst (time se) < ticks inst t"
    and "difference_representable inst (time se) t"
  shows "predict inst True t (linear_dynamics n A) (process_noise_of n pn) se
     = (Inr (),
        \<lparr>time = t,
         estimate =
           \<lparr>mean = mat_vec n n A (mean (estimate se)),
            covariance =
              mat_add n n
                (mat_mult n n n (mat_mult n n n A (covariance (estimate se))) (mat_transpose n n A))
                (mat_smult n n (of_int (ticks inst t - ticks inst (time se)) * seconds_per_tick inst)
                   (process_noise_per_second pn))\<rparr>\<rparr>)"
  using assms
  by (simp add: predict_def difference_representable_def linear_dynamics_def linear_belief_def
      process_noise_of_def TimeDependentAdditiveProcessNoise_call_def Let_def)

theorem predict_linear_additive_noise_witness:
  "ticks example_instance (time example_estimator) < ticks example_instance (1500 :: 64 word)
   \<and> difference_representable example_instance (time example_estimator) 1500
   \<and> predict example_instance True 1500 (linear_dynamics 1 [[3]])
       (process_noise_of 1 \<lparr>process_noise_per_second = [[2]]\<rparr>) example_estimator
     = (Inr (), \<lparr>time = 1500, estimate = \<lparr>mean = [3], covariance = [[38]]\<rparr>\<rparr>)"
proof -
  have h1: "ticks example_instance (time example_estimator) < ticks example_instance (1500 :: 64 word)"
    by (simp add: ticks_def example_instance_def example_estimator_def)
  have h2: "difference_representable example_instance (time example_estimator) 1500"
    by (simp add: difference_representable_def ticks_def example_instance_def example_estimator_def)
  have "mat_vec 1 1 [[3]] (mean (estimate example_estimator)) = [3]"
    by (simp add: example_defs mat_defs)
  moreover have "mat_add 1 1
      (mat_mult 1 1 1 (mat_mult 1 1 1 [[3]] (covariance (estimate example_estimator)))
         (mat_transpose 1 1 [[3]]))
      (mat_smult 1 1
         (of_int (ticks example_instance (1500 :: 64 word) - ticks example_instance (time example_estimator))
            * seconds_per_tick example_instance)
         (process_noise_per_second \<lparr>process_noise_per_second = [[2]]\<rparr>)) = [[38]]"
    by (simp add: example_defs mat_defs ticks_def)
  ultimately show ?thesis
    using h1 h2 predict_linear_additive_noise [OF h1 h2, of 1 "[[3]]"
        "\<lparr>process_noise_per_second = [[2]]\<rparr>"]
    by simp
qed

text \<open>
  C4.  Spec-modelled sampler statistics.  When the sampler reproduces the estimate (its
  point set has the mean and the covariance of the estimate it was drawn from), the
  sampled path and the differentiable path agree on linear models: \<open>predict\<close> returns
  the same outcome and estimator, \<open>predict_observation\<close> the same mean, covariance and
  cross covariance.
\<close>

theorem linear_model_paths_agree:
  assumes "statistics (state_dim inst) (sample inst (estimate se)) = estimate se"
  shows "predict inst False t (linear_dynamics (state_dim inst) A) process_noise se
           = predict inst True t (linear_dynamics (state_dim inst) A) process_noise se
       \<and> predict_observation inst m False (linear_observer m (state_dim inst) H) g se
           = predict_observation inst m True (linear_observer m (state_dim inst) H) g se"
  using assms by (simp only: predict_sampled_linear predict_observation_sampled_linear)

theorem linear_model_paths_agree_witness:
  "statistics (state_dim example_instance) (sample example_instance (estimate example_estimator))
     = estimate example_estimator
   \<and> predict example_instance False 1500 (linear_dynamics 1 [[3]])
       (process_noise_of 1 \<lparr>process_noise_per_second = [[2]]\<rparr>) example_estimator
     = (Inr (), \<lparr>time = 1500, estimate = \<lparr>mean = [3], covariance = [[38]]\<rparr>\<rparr>)
   \<and> fst (predict_observation example_instance 2 False (linear_observer 2 1 [[3], [1]]) ()
       example_estimator)
     = returned \<lparr>mean = [3, 1], covariance = [[36, 12], [12, 4]], cross_covariance = [[12, 4]]\<rparr>"
proof -
  have sd: "state_dim example_instance = 1" by (simp add: example_instance_def)
  have "predict example_instance True 1500 (linear_dynamics 1 [[3]])
       (process_noise_of 1 \<lparr>process_noise_per_second = [[2]]\<rparr>) example_estimator
     = (Inr (), \<lparr>time = 1500, estimate = \<lparr>mean = [3], covariance = [[38]]\<rparr>\<rparr>)"
    by code_simp
  moreover have "fst (predict_observation example_instance 2 True (linear_observer 2 1 [[3], [1]]) ()
       example_estimator)
     = returned \<lparr>mean = [3, 1], covariance = [[36, 12], [12, 4]], cross_covariance = [[12, 4]]\<rparr>"
    by code_simp
  ultimately show ?thesis
    using linear_model_paths_agree [OF example_sampler_exact, of 1500 "[[3]]"
        "process_noise_of 1 \<lparr>process_noise_per_second = [[2]]\<rparr>" 2 "[[3], [1]]" "()"]
      example_sampler_exact
    by (simp add: sd)
qed

text \<open>
  C5.  \<open>predict\<close> to the estimator's own time returns normally and leaves the estimator
  as it was, whatever the dynamics and the process noise are: neither is called.
\<close>

theorem predict_equal_time_noop:
  "predict inst callable (time se) dynamics process_noise se = (Inr (), se)"
  by (simp add: predict_def ticks_zero)

text \<open>
  C6.  The scalar scenario: belief with mean 0 and covariance 1; the identity observer
  predicts mean 0, covariance 1 and cross covariance 1; assimilating the observation
  with mean 5 and covariance 1 gives mean 5/2 and covariance 1/2.
\<close>

theorem scalar_scenario:
  "fst (predict_observation
          \<lparr>state_dim = 1, signed_rep = True, seconds_per_tick = 1, sample = example_sampler\<rparr> 1 True
          (linear_observer 1 1 [[1]]) ()
          \<lparr>time = 0 :: 64 word, estimate = \<lparr>mean = [0], covariance = [[1]]\<rparr>\<rparr>)
     = returned \<lparr>mean = [0], covariance = [[1]], cross_covariance = [[1]]\<rparr>
   \<and> assimilate \<lparr>state_dim = 1, signed_rep = True, seconds_per_tick = 1, sample = example_sampler\<rparr> 1
       \<lparr>mean = [0], covariance = [[1]], cross_covariance = [[1]]\<rparr>
       \<lparr>mean = [5], covariance = [[1]]\<rparr>
       \<lparr>time = 0 :: 64 word, estimate = \<lparr>mean = [0], covariance = [[1]]\<rparr>\<rparr>
     = \<lparr>time = 0, estimate = \<lparr>mean = [5 / 2], covariance = [[1 / 2]]\<rparr>\<rparr>"
  by code_simp

text \<open>
  C7.  The time-dependent additive process noise returns \<open>covariance + dt Q\<close>, entry by
  entry, and leaves the mean it is given as it was.
\<close>

theorem process_noise_adds_scaled_rate:
  "TimeDependentAdditiveProcessNoise_call n pn dt m cov
     = (m, mat_add n n cov (mat_smult n n dt (process_noise_per_second pn)))
   \<and> mat n n (snd (TimeDependentAdditiveProcessNoise_call n pn dt m cov))
   \<and> (\<forall>i<n. \<forall>j<n. snd (TimeDependentAdditiveProcessNoise_call n pn dt m cov) ! i ! j
          = cov ! i ! j + dt * process_noise_per_second pn ! i ! j)"
  by (simp add: TimeDependentAdditiveProcessNoise_call_def mat_add_def mat_smult_def
      mat_mk_mat nth_mk_mat)

theorem process_noise_adds_scaled_rate_witness:
  "(0::nat) < 2 \<and> (1::nat) < 2
   \<and> TimeDependentAdditiveProcessNoise_call 2 \<lparr>process_noise_per_second = [[1, 0], [0, 1]]\<rparr>
       3 [7, 8] [[2, 1], [1, 2]] = ([7, 8], [[5, 1], [1, 5 :: real]])
   \<and> snd (TimeDependentAdditiveProcessNoise_call 2 \<lparr>process_noise_per_second = [[1, 0], [0, 1]]\<rparr>
       3 [7, 8] [[2, 1], [1, 2 :: real]]) ! 0 ! 1 = [[2, 1], [1, 2]] ! 0 ! 1 + 3 * [[1, 0], [0, 1]] ! 0 ! 1"
proof -
  have "mat_add 2 2 [[2, 1], [1, 2]] (mat_smult 2 2 3 [[1, 0], [0, 1]]) = [[5, 1], [1, 5 :: real]]"
    by code_simp
  then show ?thesis
    using process_noise_adds_scaled_rate [of 2 "\<lparr>process_noise_per_second = [[1, 0], [0, 1]]\<rparr>"
        "3 :: real" "[7, 8]" "[[2, 1], [1, 2]]"]
    by simp
qed




text \<open>
  C9.  As stated the claim fails: with unsigned ticks a successful \<open>predict\<close> to an earlier
  time moves the time of the estimator back.
\<close>

theorem time_decreases_unsigned_counterexample:
  "fst (predict unsigned_instance True 499 (linear_dynamics 1 [[1]])
          (process_noise_of 1 \<lparr>process_noise_per_second = [[0]]\<rparr>) example_estimator_uint32)
     = Inr ()
   \<and> map time (run unsigned_instance
         [Predict True 499 (linear_dynamics 1 [[1]])
            (process_noise_of 1 \<lparr>process_noise_per_second = [[0]]\<rparr>)
          :: (real, unit, 32 word) operation]
         example_estimator_uint32) = [499]
   \<and> ticks unsigned_instance (499 :: 32 word)
       < ticks unsigned_instance (time example_estimator_uint32)"
proof -
  have "ticks unsigned_instance (499 :: 32 word) < ticks unsigned_instance (time example_estimator_uint32)"
    by (simp add: ticks_def unsigned_instance_def example_estimator_uint32_def)
  then show ?thesis
    by (simp add: predict_def ticks_minus_one_uint32 Let_def example_estimator_uint32_def)
qed

text \<open>
  C9, amended.  Over every sequence of operations in which the difference between the
  target time of each \<open>predict\<close> and the time of the estimator it is called on is
  representable in the tick representation, the times of the estimator, from the
  initial one on, never decrease: such a \<open>predict\<close> never moves the time back, and
  \<open>predict_observation\<close> and \<open>assimilate\<close> leave it as it is.
\<close>

theorem time_never_decreases:
  "(differences_representable inst operations se \<longrightarrow>
      sorted (map (\<lambda>s. ticks inst (time s)) (se # run inst operations se)))
   \<and> (difference_representable inst (time se) t \<longrightarrow>
      ticks inst (time se)
        \<le> ticks inst (time (snd (predict inst callable t dynamics process_noise se))))
   \<and> time (snd (predict_observation inst m callable observer augmented_state se)) = time se
   \<and> time (assimilate inst m po observation se) = time se"
proof -
  have 1: "differences_representable inst operations se \<longrightarrow>
      sorted (map (\<lambda>s. ticks inst (time s)) (se # run inst operations se))"
    by (rule impI) (rule run_time_sorted)
  have 2: "difference_representable inst (time se) t \<longrightarrow>
      ticks inst (time se)
        \<le> ticks inst (time (snd (predict inst callable t dynamics process_noise se)))"
    by (rule impI) (rule predict_time_monotone)
  have 3: "time (snd (predict_observation inst m callable observer augmented_state se)) = time se"
    by (simp only: predict_observation_estimator)
  have 4: "time (assimilate inst m po observation se) = time se"
    by (simp add: assimilate_def Let_def)
  show ?thesis
    by (rule conjI [OF 1 conjI [OF 2 conjI [OF 3 4]]])
qed

theorem time_never_decreases_witness:
  "differences_representable example_instance
     [Predict True 1500 (linear_dynamics 1 [[3]])
        (process_noise_of 1 \<lparr>process_noise_per_second = [[2]]\<rparr>),
      PredictObservation 1 True (linear_observer 1 1 [[1]]) (),
      Predict True 1000 (linear_dynamics 1 [[3]])
        (process_noise_of 1 \<lparr>process_noise_per_second = [[2]]\<rparr>),
      Assimilate 2 example_predicted_observation example_observation,
      Predict False 2500 (linear_dynamics 1 [[3]])
        (process_noise_of 1 \<lparr>process_noise_per_second = [[2]]\<rparr>)]
     example_estimator
   \<and> map time (run example_instance
       [Predict True 1500 (linear_dynamics 1 [[3]])
          (process_noise_of 1 \<lparr>process_noise_per_second = [[2]]\<rparr>),
        PredictObservation 1 True (linear_observer 1 1 [[1]]) (),
        Predict True 1000 (linear_dynamics 1 [[3]])
          (process_noise_of 1 \<lparr>process_noise_per_second = [[2]]\<rparr>),
        Assimilate 2 example_predicted_observation example_observation,
        Predict False 2500 (linear_dynamics 1 [[3]])
          (process_noise_of 1 \<lparr>process_noise_per_second = [[2]]\<rparr>)]
       example_estimator) = [1500, 1500, 1500, 1500, 2500]
   \<and> sorted (map (\<lambda>s. ticks example_instance (time s))
       (example_estimator # run example_instance
         [Predict True 1500 (linear_dynamics 1 [[3]])
            (process_noise_of 1 \<lparr>process_noise_per_second = [[2]]\<rparr>),
          PredictObservation 1 True (linear_observer 1 1 [[1]]) (),
          Predict True 1000 (linear_dynamics 1 [[3]])
            (process_noise_of 1 \<lparr>process_noise_per_second = [[2]]\<rparr>),
          Assimilate 2 example_predicted_observation example_observation,
          Predict False 2500 (linear_dynamics 1 [[3]])
            (process_noise_of 1 \<lparr>process_noise_per_second = [[2]]\<rparr>)]
         example_estimator))"
proof -
  let ?ops = "[Predict True 1500 (linear_dynamics 1 [[3]])
        (process_noise_of 1 \<lparr>process_noise_per_second = [[2]]\<rparr>),
      PredictObservation 1 True (linear_observer 1 1 [[1]]) (),
      Predict True 1000 (linear_dynamics 1 [[3]])
        (process_noise_of 1 \<lparr>process_noise_per_second = [[2]]\<rparr>),
      Assimilate 2 example_predicted_observation example_observation,
      Predict False 2500 (linear_dynamics 1 [[3]])
        (process_noise_of 1 \<lparr>process_noise_per_second = [[2]]\<rparr>)]
     :: (real, unit, 64 word) operation list"
  have h: "differences_representable example_instance ?ops example_estimator"
    by code_simp
  have v: "map time (run example_instance ?ops example_estimator) = [1500, 1500, 1500, 1500, 2500]"
    by code_simp
  have "differences_representable example_instance ?ops example_estimator \<longrightarrow>
      sorted (map (\<lambda>s. ticks example_instance (time s))
        (example_estimator # run example_instance ?ops example_estimator))"
    using time_never_decreases [of example_instance ?ops example_estimator] by (rule conjunct1)
  then have s: "sorted (map (\<lambda>s. ticks example_instance (time s))
        (example_estimator # run example_instance ?ops example_estimator))"
    using h by (rule mp)
  show ?thesis
    by (rule conjI [OF h conjI [OF v s]])
qed

text \<open>
  C10.  \<open>assimilate\<close> keeps the covariance symmetric: when the covariance of the estimate
  and the sum \<open>S\<close> of the two observation covariances are symmetric, so is the covariance
  after the call.  (That \<open>S\<close> is invertible is not needed.)
\<close>

theorem assimilate_preserves_symmetry:
  assumes "symmetric (state_dim inst) (covariance (estimate se))"
    and "symmetric m (mat_add m m (covariance po) (covariance observation))"
  shows "symmetric (state_dim inst) (covariance (estimate (assimilate inst m po observation se)))"
  using assms by (simp add: assimilate_def Let_def symmetric_sub symmetric_congruence)

theorem assimilate_preserves_symmetry_witness:
  "symmetric (state_dim example_instance_2d) (covariance (estimate example_estimator_2d))
   \<and> symmetric 2
       (mat_add 2 2 (covariance example_predicted_observation_2d) (covariance example_observation))
   \<and> assimilate example_instance_2d 2 example_predicted_observation_2d example_observation
       example_estimator_2d
     = \<lparr>time = 500,
        estimate = \<lparr>mean = [13 / 17, 24 / 17], covariance = [[6 / 17, - 2 / 17], [- 2 / 17, 12 / 17]]\<rparr>\<rparr>
   \<and> symmetric (state_dim example_instance_2d)
       (covariance (estimate (assimilate example_instance_2d 2 example_predicted_observation_2d
          example_observation example_estimator_2d)))"
proof -
  have h1: "symmetric (state_dim example_instance_2d) (covariance (estimate example_estimator_2d))"
    by code_simp
  have h2: "symmetric 2
      (mat_add 2 2 (covariance example_predicted_observation_2d) (covariance example_observation))"
    by code_simp
  have v: "assimilate example_instance_2d 2 example_predicted_observation_2d example_observation
       example_estimator_2d
     = \<lparr>time = 500,
        estimate = \<lparr>mean = [13 / 17, 24 / 17], covariance = [[6 / 17, - 2 / 17], [- 2 / 17, 12 / 17]]\<rparr>\<rparr>"
    by code_simp
  show ?thesis
    using h1 h2 v assimilate_preserves_symmetry [OF h1 h2] by simp
qed

end
